theory Spec2Isabelle
  imports Complex_Main "HOL-Library.Sublist"
begin

section \<open>The player module of X Stream and Play (player.js)\<close>

text \<open>
  The development embeds the adaptive playback controller of player.js: the format
  resolution of \<^verbatim>\<open>loadVideo\<close> and \<^verbatim>\<open>_getExt\<close>, the life cycle of the HLS.js
  instance (\<^verbatim>\<open>_loadHls\<close>, \<^verbatim>\<open>_destroyHls\<close>), the handlers of the engine's events, the
  handlers of the video element's events, \<^verbatim>\<open>seek\<close>, \<^verbatim>\<open>_getBufferAhead\<close> and the
  unmute timer of \<^verbatim>\<open>_scheduleUnmute\<close>.

  Conventions of the embedding.
  \<^item> A JavaScript string is a \<open>string\<close>; a time in seconds is a \<open>real\<close> (arithmetic is
    exact, rounding of doubles is not modelled); \<^verbatim>\<open>video.duration\<close>, which the browser may
    leave at NaN or set to Infinity, is a \<open>jsval\<close>.
  \<^item> A call that can throw returns \<open>js_error + 'a\<close>; \<open>Inl\<close> is the exception.
  \<^item> The module's variables and the parts of the page they drive are the record
    \<open>player\<close>; every function of the module takes the state and returns the new one.
  \<^item> HLS.js, the video element and the URL parser are not code of the module. An HLS.js
    instance is the record \<open>engine\<close>, with the calls made on it logged in \<open>calls\<close>; the
    video element is the record \<open>video\<close>; the probes of the platform are the record \<open>env\<close>.
  \<^item> The stats panel, the scrubber, the keyboard and pointer bindings and the fullscreen
    and volume icons are outside the state modelled here.
\<close>

subsection \<open>JavaScript values\<close>

datatype js_error = TypeError

text \<open>A number as \<^verbatim>\<open>video.duration\<close> can hold it, or \<^verbatim>\<open>undefined\<close>.\<close>

datatype jsval = Undefined | NaN | NegInfinity | Infinity | Number real

text \<open>ToBoolean: \<^verbatim>\<open>undefined\<close>, NaN and 0 are falsy.\<close>

fun truthy :: "jsval \<Rightarrow> bool" where
  "truthy Undefined = False"
| "truthy NaN = False"
| "truthy NegInfinity = True"
| "truthy Infinity = True"
| "truthy (Number x) = (x \<noteq> 0)"

text \<open>\<^verbatim>\<open>a || b\<close>\<close>

definition js_or :: "jsval \<Rightarrow> jsval \<Rightarrow> jsval" where
  "js_or a b = (if truthy a then a else b)"

text \<open>\<^verbatim>\<open>Math.min\<close> and \<^verbatim>\<open>Math.max\<close>: NaN as soon as an argument is NaN or \<^verbatim>\<open>undefined\<close>.\<close>

fun math_min :: "jsval \<Rightarrow> jsval \<Rightarrow> jsval" where
  "math_min Undefined _ = NaN"
| "math_min _ Undefined = NaN"
| "math_min NaN _ = NaN"
| "math_min _ NaN = NaN"
| "math_min NegInfinity _ = NegInfinity"
| "math_min _ NegInfinity = NegInfinity"
| "math_min Infinity b = b"
| "math_min a Infinity = a"
| "math_min (Number a) (Number b) = Number (min a b)"

fun math_max :: "jsval \<Rightarrow> jsval \<Rightarrow> jsval" where
  "math_max Undefined _ = NaN"
| "math_max _ Undefined = NaN"
| "math_max NaN _ = NaN"
| "math_max _ NaN = NaN"
| "math_max Infinity _ = Infinity"
| "math_max _ Infinity = Infinity"
| "math_max NegInfinity b = b"
| "math_max a NegInfinity = a"
| "math_max (Number a) (Number b) = Number (max a b)"

text \<open>\<^verbatim>\<open>x / d\<close> for a finite \<open>x\<close> (the sign of a zero is not modelled).\<close>

fun js_div :: "real \<Rightarrow> jsval \<Rightarrow> jsval" where
  "js_div x Undefined = NaN"
| "js_div x NaN = NaN"
| "js_div x NegInfinity = Number 0"
| "js_div x Infinity = Number 0"
| "js_div x (Number d) =
     (if d \<noteq> 0 then Number (x / d)
      else if x = 0 then NaN
      else if 0 < x then Infinity
      else NegInfinity)"

text \<open>\<^verbatim>\<open>s || d\<close> on strings: the empty string is falsy, as \<^verbatim>\<open>undefined\<close> is.\<close>

definition str_or :: "string option \<Rightarrow> string \<Rightarrow> string" where
  "str_or s d = (case s of None \<Rightarrow> d | Some x \<Rightarrow> if x = [] then d else x)"

text \<open>\<^verbatim>\<open>s.split(c)\<close> for a separator of one character: never an empty array.\<close>

fun split_on :: "char \<Rightarrow> string \<Rightarrow> string list" where
  "split_on c [] = [[]]"
| "split_on c (x # xs) =
     (if x = c then [] # split_on c xs
      else (case split_on c xs of
              [] \<Rightarrow> [[x]]
            | seg # segs \<Rightarrow> (x # seg) # segs))"

text \<open>\<^verbatim>\<open>a.pop()\<close>: the last element, \<^verbatim>\<open>undefined\<close> on an empty array.\<close>

definition pop :: "'a list \<Rightarrow> 'a option" where
  "pop xs = (if xs = [] then None else Some (last xs))"

text \<open>\<^verbatim>\<open>s.toLowerCase()\<close> on the letters A to Z; other characters are kept.\<close>

definition lower_char :: "char \<Rightarrow> char" where
  "lower_char c =
     (case map_of (zip ''ABCDEFGHIJKLMNOPQRSTUVWXYZ'' ''abcdefghijklmnopqrstuvwxyz'') c of
        None \<Rightarrow> c
      | Some l \<Rightarrow> l)"

definition toLowerCase :: "string \<Rightarrow> string" where
  "toLowerCase s = map lower_char s"

text \<open>\<^verbatim>\<open>s.includes(pat)\<close>\<close>

definition js_includes :: "string \<Rightarrow> string \<Rightarrow> bool" where
  "js_includes s pat = sublist pat s"

subsection \<open>Format resolution: \<^verbatim>\<open>_getExt\<close> and the branch of \<^verbatim>\<open>loadVideo\<close>\<close>

text \<open>
  \<^verbatim>\<open>x.split('.').pop().toLowerCase().split('?')[0]\<close>: \<open>toLowerCase\<close> on \<^verbatim>\<open>undefined\<close>
  would throw, index 0 of an empty array would be \<^verbatim>\<open>undefined\<close>.
\<close>

definition ext_chain :: "string \<Rightarrow> js_error + string option" where
  "ext_chain x =
     (case pop (split_on CHR ''.'' x) of
        None \<Rightarrow> Inl TypeError
      | Some seg \<Rightarrow>
          Inr (case split_on CHR ''?'' (toLowerCase seg) of
                 [] \<Rightarrow> None
               | e # _ \<Rightarrow> Some e))"

text \<open>
  \<^verbatim>\<open>_getExt(url)\<close>. The parameter \<open>pathname\<close> is \<^verbatim>\<open>new URL(url).pathname\<close> of the platform:
  \<open>None\<close> when the constructor throws. The \<^verbatim>\<open>catch\<close> block runs the same chain on the
  whole url.
\<close>

definition getExt :: "(string \<Rightarrow> string option) \<Rightarrow> string \<Rightarrow> js_error + string option" where
  "getExt pathname url =
     (case (case pathname url of
              None \<Rightarrow> Inl TypeError
            | Some path \<Rightarrow> ext_chain path) of
        Inr e \<Rightarrow> Inr e
      | Inl _ \<Rightarrow> ext_chain url)"

datatype DeliveryKind = Progressive | HLS | DASH

text \<open>The conditions of the \<^verbatim>\<open>if\<close> chain of \<^verbatim>\<open>loadVideo\<close>, in its order.\<close>

definition classify :: "(string \<Rightarrow> string option) \<Rightarrow> string \<Rightarrow> js_error + DeliveryKind" where
  "classify pathname url =
     (case getExt pathname url of
        Inl err \<Rightarrow> Inl err
      | Inr ext \<Rightarrow>
          Inr (if ext = Some ''m3u8'' \<or> js_includes url ''.m3u8'' then HLS
               else if ext = Some ''mpd'' \<or> js_includes url ''.mpd'' then DASH
               else Progressive))"

text \<open>
  The extension in the words of the specification: what follows the last dot, in lower
  case, without a query string.
\<close>

definition path_extension :: "string \<Rightarrow> string" where
  "path_extension x =
     takeWhile (\<lambda>c. c \<noteq> CHR ''?'')
       (toLowerCase (rev (takeWhile (\<lambda>c. c \<noteq> CHR ''.'') (rev x))))"

text \<open>The text \<^verbatim>\<open>_getExt\<close> works on: the path when the url parses, the url otherwise.\<close>

definition path_or_url :: "(string \<Rightarrow> string option) \<Rightarrow> string \<Rightarrow> string" where
  "path_or_url pathname url = (case pathname url of None \<Rightarrow> url | Some path \<Rightarrow> path)"

text \<open>
  A sample of the platform's parser, for urls of the shape
  \<^verbatim>\<open>scheme://host/path?query#fragment\<close>; everything else does not parse.
\<close>

fun after_marker :: "string \<Rightarrow> string \<Rightarrow> string option" where
  "after_marker m [] = None"
| "after_marker m (x # xs) =
     (if prefix m (x # xs) then Some (drop (length m) (x # xs)) else after_marker m xs)"

definition sample_pathname :: "string \<Rightarrow> string option" where
  "sample_pathname url =
     (case after_marker ''://'' url of
        None \<Rightarrow> None
      | Some rest \<Rightarrow>
          (let p = takeWhile (\<lambda>c. c \<noteq> CHR ''?'' \<and> c \<noteq> CHR ''#'')
                     (dropWhile (\<lambda>c. c \<noteq> CHR ''/'' \<and> c \<noteq> CHR ''?'' \<and> c \<noteq> CHR ''#'') rest)
           in Some (if p = [] then ''/'' else p)))"

subsection \<open>The video element\<close>

datatype video_call = Load | Play

text \<open>
  The attributes of the element the module reads or writes; \<open>error\<close> is the code of
  \<^verbatim>\<open>video.error\<close> (\<open>None\<close> for \<^verbatim>\<open>null\<close>), \<open>buffered\<close> the ranges of \<^verbatim>\<open>video.buffered\<close> as
  pairs of start and end, \<open>vcalls\<close> the calls of \<^verbatim>\<open>load()\<close> and \<^verbatim>\<open>play()\<close> made so far.
\<close>

record video =
  src :: "string option"
  muted :: bool
  volume :: real
  paused :: bool
  currentTime :: real
  duration :: jsval
  buffered :: "(real \<times> real) list"
  error :: "nat option"
  vcalls :: "video_call list"

subsection \<open>The HLS.js instance\<close>

datatype hls_event = MANIFEST_PARSED | ERROR | AUDIO_TRACK_LOADED

datatype hls_error_type = NETWORK_ERROR | MEDIA_ERROR | KEY_SYSTEM_ERROR | MUX_ERROR | OTHER_ERROR

text \<open>The \<^verbatim>\<open>data\<close> of an ERROR event: \<^verbatim>\<open>data.fatal\<close>, \<^verbatim>\<open>data.type\<close>, \<^verbatim>\<open>data.details\<close>.\<close>

record error_data =
  fatal :: bool
  error_type :: hls_error_type
  details :: "string option"

datatype config_value = CBool bool | CNum real

type_synonym config = "(string \<times> config_value) list"

datatype engine_call =
  LoadSource string | AttachMedia | StartLoad | RecoverMediaError | SetAudioTrack int | Destroy

text \<open>
  An instance of \<^verbatim>\<open>Hls\<close>: its listeners in the order of their registration, its audio
  tracks and the index of the active one (negative when none is), and the log of the
  methods called on it.
\<close>

record engine =
  config :: config
  destroyed :: bool
  listeners :: "hls_event list"
  audioTracks :: "string list option"
  audioTrack :: int
  calls :: "engine_call list"

text \<open>\<^verbatim>\<open>new Hls(config)\<close>\<close>

definition new_Hls :: "config \<Rightarrow> engine" where
  "new_Hls cfg =
     \<lparr>config = cfg, destroyed = False, listeners = [], audioTracks = Some [],
      audioTrack = - 1, calls = []\<rparr>"

text \<open>\<^verbatim>\<open>hls.on(event, handler)\<close>\<close>

definition hls_on :: "hls_event \<Rightarrow> engine \<Rightarrow> engine" where
  "hls_on ev e = e\<lparr>listeners := listeners e @ [ev]\<rparr>"

text \<open>A method call that the model only logs.\<close>

definition hls_call :: "engine_call \<Rightarrow> engine \<Rightarrow> engine" where
  "hls_call c e = e\<lparr>calls := calls e @ [c]\<rparr>"

text \<open>\<^verbatim>\<open>hls.audioTrack = n\<close>\<close>

definition hls_set_audioTrack :: "int \<Rightarrow> engine \<Rightarrow> engine" where
  "hls_set_audioTrack n e = e\<lparr>audioTrack := n, calls := calls e @ [SetAudioTrack n]\<rparr>"

text \<open>\<^verbatim>\<open>hls.destroy()\<close>: HLS.js frees the instance and removes all its listeners.\<close>

definition hls_destroy :: "engine \<Rightarrow> engine" where
  "hls_destroy e = e\<lparr>destroyed := True, listeners := [], calls := calls e @ [Destroy]\<rparr>"

text \<open>The default configuration written in \<^verbatim>\<open>_loadHls\<close>, and the one of hls-config.js.\<close>

definition default_config :: config where
  "default_config =
     [(''enableWorker'', CBool True), (''lowLatencyMode'', CBool False),
      (''backBufferLength'', CNum 90)]"

definition window_HLS_CONFIG :: config where
  "window_HLS_CONFIG =
     [(''enableWorker'', CBool True), (''maxBufferLength'', CNum 30),
      (''maxMaxBufferLength'', CNum 60), (''backBufferLength'', CNum 30),
      (''abrBandWidthFactor'', CNum 0.95), (''abrBandWidthUpFactor'', CNum 0.7),
      (''fragLoadingMaxRetry'', CNum 6), (''manifestLoadingMaxRetry'', CNum 4),
      (''levelLoadingMaxRetry'', CNum 4), (''startLevel'', CNum (- 1)),
      (''capLevelToPlayerSize'', CBool True), (''lowLatencyMode'', CBool False),
      (''debug'', CBool False)]"

subsection \<open>The state of the module\<close>

datatype timer_callback = UnmuteCallback

text \<open>A pending \<^verbatim>\<open>setTimeout\<close>: its delay in milliseconds and its callback.\<close>

type_synonym timer = "nat \<times> timer_callback"

text \<open>
  \<open>hlsInstance\<close> is the module's variable; \<open>dropped\<close> collects the instances it referred
  to before it was assigned again, in the state they had then. \<open>timers\<close> are the timeouts
  of \<^verbatim>\<open>_scheduleUnmute\<close> that have not fired. The other fields are the parts of the page
  the functions below write: the spinner, the error overlay and its message, the
  play/pause icon, the width of the buffer bar in percent, the title and the wrapper.
\<close>

record player =
  hlsInstance :: "engine option"
  dropped :: "engine list"
  video :: video
  unmutePending :: bool
  timers :: "timer list"
  spinner_active :: bool
  errorOverlay_active :: bool
  errorMsg :: string
  playIcon_paused :: bool
  bufferBar_width :: "real option"
  playerTitle :: string
  playerWrap_visible :: bool

text \<open>
  The platform: the URL parser, whether \<^verbatim>\<open>Hls\<close> is defined, \<^verbatim>\<open>Hls.isSupported()\<close>,
  whether \<^verbatim>\<open>video.canPlayType('application/vnd.apple.mpegurl')\<close> is a non-empty string,
  and \<^verbatim>\<open>window.HLS_CONFIG\<close>.
\<close>

record env =
  url_pathname :: "string \<Rightarrow> string option"
  Hls_defined :: bool
  Hls_isSupported :: bool
  canPlayType_hls :: bool
  HLS_CONFIG :: "config option"

definition init_video :: video where
  "init_video =
     \<lparr>src = None, muted = False, volume = 1, paused = True, currentTime = 0,
      duration = NaN, buffered = [], error = None, vcalls = []\<rparr>"

definition init_player :: player where
  "init_player =
     \<lparr>hlsInstance = None, dropped = [], video = init_video, unmutePending = False,
      timers = [], spinner_active = False, errorOverlay_active = False, errorMsg = [],
      playIcon_paused = True, bufferBar_width = None, playerTitle = [],
      playerWrap_visible = False\<rparr>"

subsection \<open>Spinner and error helpers\<close>

definition showSpinner :: "player \<Rightarrow> player" where
  "showSpinner s = s\<lparr>spinner_active := True\<rparr>"

definition hideSpinner :: "player \<Rightarrow> player" where
  "hideSpinner s = s\<lparr>spinner_active := False\<rparr>"

definition showError :: "string \<Rightarrow> player \<Rightarrow> player" where
  "showError msg s =
     (hideSpinner s)\<lparr>errorMsg := str_or (Some msg) ''Could not load video.'',
                      errorOverlay_active := True\<rparr>"

definition hideError :: "player \<Rightarrow> player" where
  "hideError s = s\<lparr>errorOverlay_active := False\<rparr>"

definition setPlayIcon :: "bool \<Rightarrow> player \<Rightarrow> player" where
  "setPlayIcon isPaused s = s\<lparr>playIcon_paused := isPaused\<rparr>"

text \<open>\<^verbatim>\<open>video.load()\<close> and \<^verbatim>\<open>video.play().catch(() => {})\<close>\<close>

definition video_call :: "video_call \<Rightarrow> player \<Rightarrow> player" where
  "video_call c s = s\<lparr>video := (video s)\<lparr>vcalls := vcalls (video s) @ [c]\<rparr>\<rparr>"

definition set_src :: "string option \<Rightarrow> player \<Rightarrow> player" where
  "set_src u s = s\<lparr>video := (video s)\<lparr>src := u\<rparr>\<rparr>"

definition set_muted :: "bool \<Rightarrow> player \<Rightarrow> player" where
  "set_muted m s = s\<lparr>video := (video s)\<lparr>muted := m\<rparr>\<rparr>"

definition set_volume :: "real \<Rightarrow> player \<Rightarrow> player" where
  "set_volume x s = s\<lparr>video := (video s)\<lparr>volume := x\<rparr>\<rparr>"

subsection \<open>Loading: \<^verbatim>\<open>_destroyHls\<close>, \<^verbatim>\<open>_loadHls\<close>, \<^verbatim>\<open>loadVideo\<close>\<close>

text \<open>The assignment \<^verbatim>\<open>hlsInstance = v\<close>: the instance referred to before is dropped.\<close>

definition assign_hlsInstance :: "engine option \<Rightarrow> player \<Rightarrow> player" where
  "assign_hlsInstance v s =
     s\<lparr>hlsInstance := v,
       dropped := (case hlsInstance s of None \<Rightarrow> dropped s | Some old \<Rightarrow> dropped s @ [old])\<rparr>"

text \<open>A method call on \<^verbatim>\<open>hlsInstance\<close>, where the source has just assigned it.\<close>

definition on_hlsInstance :: "(engine \<Rightarrow> engine) \<Rightarrow> player \<Rightarrow> player" where
  "on_hlsInstance f s = s\<lparr>hlsInstance := map_option f (hlsInstance s)\<rparr>"

definition destroyHls :: "player \<Rightarrow> player" where
  "destroyHls s =
     (let s1 = (case hlsInstance s of
                  None \<Rightarrow> s
                | Some e \<Rightarrow> assign_hlsInstance None (on_hlsInstance hls_destroy s))
      in video_call Load (set_src None s1))"

definition loadHls :: "env \<Rightarrow> string \<Rightarrow> player \<Rightarrow> player" where
  "loadHls ev url s =
     (if \<not> Hls_defined ev then
        (if canPlayType_hls ev then video_call Play (set_src (Some url) s)
         else showError ''HLS.js failed to load. Check your connection.'' s)
      else if \<not> Hls_isSupported ev then video_call Play (set_src (Some url) s)
      else
        (let cfg = (case HLS_CONFIG ev of Some c \<Rightarrow> c | None \<Rightarrow> default_config);
             s1 = assign_hlsInstance (Some (new_Hls cfg)) s;
             s2 = on_hlsInstance (hls_call (LoadSource url)) s1;
             s3 = on_hlsInstance (hls_call AttachMedia) s2;
             s4 = on_hlsInstance (hls_on MANIFEST_PARSED) s3
         in on_hlsInstance (hls_on ERROR) s4))"

text \<open>
  \<^verbatim>\<open>loadVideo(url, title)\<close>. In the source the closing brace of the function is missing,
  and the registration of the AUDIO_TRACK_LOADED handler stands after the declaration of
  \<^verbatim>\<open>_loadHls\<close>, outside it. The function is read in the order its text stands and is
  taken to end after that registration: the calls up to the \<^verbatim>\<open>if\<close> chain on the format,
  then \<^verbatim>\<open>hlsInstance.on(Hls.Events.AUDIO_TRACK_LOADED, ...)\<close>, which throws a TypeError
  when \<^verbatim>\<open>hlsInstance\<close> is \<^verbatim>\<open>null\<close>. The result is the state the call leaves and the
  exception that escapes it, if any. \<^verbatim>\<open>clearStats()\<close> and the scrolling of the wrapper are
  not modelled.
\<close>

definition loadVideo :: "env \<Rightarrow> string \<Rightarrow> string option \<Rightarrow> player \<Rightarrow> player \<times> js_error option" where
  "loadVideo ev url title s =
     (let s1 = showSpinner (hideError (destroyHls s));
          s2 = s1\<lparr>playerTitle := str_or title ''Untitled'', playerWrap_visible := True\<rparr>
      in case classify (url_pathname ev) url of
           Inl err \<Rightarrow> (s2, Some err)
         | Inr kind \<Rightarrow>
             (let s3 = set_volume 1 (set_muted True s2);
                  s4 = (case kind of
                          HLS \<Rightarrow> loadHls ev url s3
                        | DASH \<Rightarrow> video_call Play (video_call Load (set_src (Some url) s3))
                        | Progressive \<Rightarrow>
                            video_call Play (video_call Load (set_src (Some url)
                              (set_volume 1 (set_muted False s3)))))
              in case hlsInstance s4 of
                   None \<Rightarrow> (s4, Some TypeError)
                 | Some e \<Rightarrow> (on_hlsInstance (hls_on AUDIO_TRACK_LOADED) s4, None)))"

subsection \<open>Handlers of the engine's events\<close>

definition onManifestParsed :: "player \<Rightarrow> js_error + player" where
  "onManifestParsed s =
     (case hlsInstance s of
        None \<Rightarrow> Inl TypeError
      | Some e \<Rightarrow>
          (let s1 = (if (case audioTracks e of None \<Rightarrow> False | Some ts \<Rightarrow> 0 < length ts)
                     then on_hlsInstance (hls_set_audioTrack 0) s else s)
           in Inr (video_call Play (set_volume 1 (set_muted False s1)))))"

definition onHlsError :: "error_data \<Rightarrow> player \<Rightarrow> js_error + player" where
  "onHlsError data s =
     (if fatal data then
        (case error_type data of
           NETWORK_ERROR \<Rightarrow>
             (case hlsInstance s of
                None \<Rightarrow> Inl TypeError
              | Some e \<Rightarrow> Inr (on_hlsInstance (hls_call StartLoad) s))
         | MEDIA_ERROR \<Rightarrow>
             (case hlsInstance s of
                None \<Rightarrow> Inl TypeError
              | Some e \<Rightarrow> Inr (on_hlsInstance (hls_call RecoverMediaError) s))
         | _ \<Rightarrow> Inr (showError (''HLS fatal error: '' @ str_or (details data) ''unknown'') s))
      else Inr s)"

definition onAudioTrackLoaded :: "player \<Rightarrow> js_error + player" where
  "onAudioTrackLoaded s =
     (case hlsInstance s of
        None \<Rightarrow> Inl TypeError
      | Some e \<Rightarrow>
          (if audioTrack e < 0 then
             (case audioTracks e of
                None \<Rightarrow> Inl TypeError
              | Some ts \<Rightarrow>
                  if 0 < length ts then Inr (on_hlsInstance (hls_set_audioTrack 0) s)
                  else Inr s)
           else Inr s))"

subsection \<open>The unmute helper: \<^verbatim>\<open>_scheduleUnmute\<close>\<close>

definition scheduleUnmute :: "player \<Rightarrow> player" where
  "scheduleUnmute s =
     (if unmutePending s then s
      else s\<lparr>unmutePending := True, timers := timers s @ [(100, UnmuteCallback)]\<rparr>)"

text \<open>The function given to \<^verbatim>\<open>setTimeout\<close>.\<close>

definition unmuteCallback :: "player \<Rightarrow> player" where
  "unmuteCallback s =
     (let s1 = (if \<not> paused (video s) \<and> 0.1 < currentTime (video s) then set_muted False s
                else s)
      in s1\<lparr>unmutePending := False\<rparr>)"

fun run_callback :: "timer_callback \<Rightarrow> player \<Rightarrow> player" where
  "run_callback UnmuteCallback s = unmuteCallback s"

text \<open>The \<open>k\<close>-th pending timeout expires: it leaves the list and its callback runs.\<close>

definition timer_expires :: "nat \<Rightarrow> player \<Rightarrow> player" where
  "timer_expires k s =
     (if k < length (timers s) then
        run_callback (snd (timers s ! k))
          (s\<lparr>timers := take k (timers s) @ drop (Suc k) (timers s)\<rparr>)
      else s)"

subsection \<open>Handlers of the video element's events\<close>

text \<open>\<^verbatim>\<open>_onVideoError\<close>; \<open>msgs\<close> is its table.\<close>

definition msgs :: "(nat \<times> string) list" where
  "msgs =
     [(1, ''Playback aborted.''),
      (2, ''Network error. Check the URL and your connection.''),
      (3, ''Decoding error. Format may be unsupported.''),
      (4, ''Source not supported or URL is invalid.'')]"

definition onVideoError :: "player \<Rightarrow> player" where
  "onVideoError s =
     (let s1 = hideSpinner s
      in showError
           (case error (video s1) of
              Some code \<Rightarrow> str_or (map_of msgs code) ''Unknown error.''
            | None \<Rightarrow> ''Could not load video.'')
           s1)"

text \<open>
  \<^verbatim>\<open>_onProgress\<close>: nothing when \<^verbatim>\<open>video.duration\<close> is falsy or no range is buffered;
  otherwise the end of the last range over the duration, in percent.
\<close>

definition onProgress :: "player \<Rightarrow> player" where
  "onProgress s =
     (if \<not> truthy (duration (video s)) \<or> length (buffered (video s)) = 0 then s
      else
        (let last_end = snd (buffered (video s) ! (length (buffered (video s)) - 1))
         in case js_div last_end (duration (video s)) of
              Number q \<Rightarrow> s\<lparr>bufferBar_width := Some (q * 100)\<rparr>
            | _ \<Rightarrow> s))"

datatype video_event =
  Waiting | Playing | Paused | Played | Ended | Errored | Canplay | Loadeddata | Progress

text \<open>The listeners of \<^verbatim>\<open>_bindVideoEvents\<close>; \<open>Paused\<close> is 'pause', \<open>Played\<close> is 'play'.\<close>

fun onVideoEvent :: "video_event \<Rightarrow> player \<Rightarrow> player" where
  "onVideoEvent Waiting s = showSpinner s"
| "onVideoEvent Playing s = scheduleUnmute (setPlayIcon False (hideError (hideSpinner s)))"
| "onVideoEvent Paused s = setPlayIcon True s"
| "onVideoEvent Played s = scheduleUnmute (setPlayIcon False s)"
| "onVideoEvent Ended s = setPlayIcon True s"
| "onVideoEvent Errored s = onVideoError s"
| "onVideoEvent Canplay s = hideSpinner s"
| "onVideoEvent Loadeddata s = hideSpinner s"
| "onVideoEvent Progress s = onProgress s"

subsection \<open>Player actions and the buffer helper\<close>

text \<open>
  \<^verbatim>\<open>seek(secs)\<close>. The position read from the element and the delta are finite numbers;
  the duration is whatever the element reports. The setter of \<^verbatim>\<open>video.currentTime\<close> throws
  a TypeError on a value that is not a finite number.
\<close>

definition seek :: "real \<Rightarrow> player \<Rightarrow> js_error + player" where
  "seek secs s =
     (case math_max (Number 0)
             (math_min (js_or (duration (video s)) (Number 0))
                (Number (currentTime (video s) + secs))) of
        Number t \<Rightarrow> Inr (s\<lparr>video := (video s)\<lparr>currentTime := t\<rparr>\<rparr>)
      | _ \<Rightarrow> Inl TypeError)"

text \<open>
  The loop of \<^verbatim>\<open>_getBufferAhead\<close> over the ranges, from the first, and the function
  itself. \<^verbatim>\<open>video.buffered\<close> is always an object, so of its first test only the one on the
  length remains.
\<close>

fun buffer_scan :: "(real \<times> real) list \<Rightarrow> real \<Rightarrow> real option" where
  "buffer_scan [] ct = None"
| "buffer_scan (r # rs) ct =
     (if fst r \<le> ct \<and> ct \<le> snd r then Some (snd r - ct) else buffer_scan rs ct)"

definition getBufferAhead :: "video \<Rightarrow> real option" where
  "getBufferAhead v =
     (if length (buffered v) = 0 then None else buffer_scan (buffered v) (currentTime v))"

text \<open>
  The buffered end in the words of the specification: the end of the furthest buffered
  interval among those that contain or follow the position; absent when there is none.
\<close>

definition contains_or_follows :: "real \<Rightarrow> real \<times> real \<Rightarrow> bool" where
  "contains_or_follows p r = ((fst r \<le> p \<and> p \<le> snd r) \<or> p < fst r)"

definition spec_buffered_end :: "(real \<times> real) list \<Rightarrow> real \<Rightarrow> real option" where
  "spec_buffered_end rs p =
     (case filter (contains_or_follows p) rs of
        [] \<Rightarrow> None
      | r # rest \<Rightarrow> Some (fold max (map snd rest) (snd r)))"

subsection \<open>Executions\<close>

datatype engine_ref = Current | Dropped nat

text \<open>
  What can happen to the module: a call of \<^verbatim>\<open>loadVideo\<close>; an event of an HLS.js instance
  (the one \<^verbatim>\<open>hlsInstance\<close> refers to, or a dropped one), with the data of an ERROR event;
  HLS.js changing the track list and the active track of the current instance; an event
  of the video element; the browser changing what the element reports (paused, position,
  duration, buffered ranges, error); a call of \<^verbatim>\<open>seek\<close>; the expiry of a timeout.
\<close>

datatype event =
  EvLoad string "string option"
| EvEngine engine_ref hls_event error_data
| EvTracks "string list option" int
| EvVideo video_event
| EvSurface bool real jsval "(real \<times> real) list" "nat option"
| EvSeek real
| EvTimer nat

definition engine_of :: "engine_ref \<Rightarrow> player \<Rightarrow> engine option" where
  "engine_of r s =
     (case r of
        Current \<Rightarrow> hlsInstance s
      | Dropped k \<Rightarrow> if k < length (dropped s) then Some (dropped s ! k) else None)"

text \<open>A handler that throws leaves the state as it was.\<close>

definition caught :: "js_error + player \<Rightarrow> player \<Rightarrow> player" where
  "caught r s = (case r of Inl _ \<Rightarrow> s | Inr s' \<Rightarrow> s')"

fun handler :: "hls_event \<Rightarrow> error_data \<Rightarrow> player \<Rightarrow> js_error + player" where
  "handler MANIFEST_PARSED d s = onManifestParsed s"
| "handler ERROR d s = onHlsError d s"
| "handler AUDIO_TRACK_LOADED d s = onAudioTrackLoaded s"

text \<open>An instance emits an event: each of its listeners for that event runs, in order.\<close>

fun dispatch :: "hls_event list \<Rightarrow> hls_event \<Rightarrow> error_data \<Rightarrow> player \<Rightarrow> player" where
  "dispatch [] ev d s = s"
| "dispatch (l # ls) ev d s =
     dispatch ls ev d (if l = ev then caught (handler ev d s) s else s)"

definition step :: "env \<Rightarrow> event \<Rightarrow> player \<Rightarrow> player" where
  "step e ev s =
     (case ev of
        EvLoad url title \<Rightarrow> fst (loadVideo e url title s)
      | EvEngine r hev d \<Rightarrow>
          (case engine_of r s of
             None \<Rightarrow> s
           | Some eng \<Rightarrow> dispatch (listeners eng) hev d s)
      | EvTracks ts a \<Rightarrow> on_hlsInstance (\<lambda>eng. eng\<lparr>audioTracks := ts, audioTrack := a\<rparr>) s
      | EvVideo vev \<Rightarrow> onVideoEvent vev s
      | EvSurface p ct du bs er \<Rightarrow>
          s\<lparr>video := (video s)\<lparr>paused := p, currentTime := ct, duration := du,
                                 buffered := bs, error := er\<rparr>\<rparr>
      | EvSeek secs \<Rightarrow> caught (seek secs s) s
      | EvTimer k \<Rightarrow> timer_expires k s)"

fun run :: "env \<Rightarrow> event list \<Rightarrow> player \<Rightarrow> player" where
  "run e [] s = s"
| "run e (ev # evs) s = run e evs (step e ev s)"

text \<open>The instances that exist, and those of them that are not destroyed.\<close>

definition all_engines :: "player \<Rightarrow> engine list" where
  "all_engines s = dropped s @ (case hlsInstance s of None \<Rightarrow> [] | Some e \<Rightarrow> [e])"

definition live_engines :: "player \<Rightarrow> engine list" where
  "live_engines s = filter (\<lambda>e. \<not> destroyed e) (all_engines s)"

text \<open>The listeners still registered on instances the module has dropped.\<close>

definition dangling :: "player \<Rightarrow> hls_event list" where
  "dangling s = concat (map listeners (dropped s))"

text \<open>Whether a load of \<open>url\<close> constructs an instance of \<^verbatim>\<open>Hls\<close>.\<close>

definition engine_path :: "env \<Rightarrow> string \<Rightarrow> bool" where
  "engine_path e url =
     (classify (url_pathname e) url = Inr HLS \<and> Hls_defined e \<and> Hls_isSupported e)"

subsection \<open>Invariants of the executions\<close>

text \<open>
  The instance \<^verbatim>\<open>hlsInstance\<close> refers to is not destroyed and carries the three listeners
  of the module, once each; every dropped instance is destroyed and has no listener.
\<close>

definition engines_ok :: "player \<Rightarrow> bool" where
  "engines_ok s =
     ((case hlsInstance s of
         None \<Rightarrow> True
       | Some e \<Rightarrow> \<not> destroyed e \<and> listeners e = [MANIFEST_PARSED, ERROR, AUDIO_TRACK_LOADED])
      \<and> list_all (\<lambda>e. destroyed e \<and> listeners e = []) (dropped s))"



subsection \<open>The words of the specification\<close>

text \<open>
  The ranges as the browser reports them: in order, apart from each other, none reversed.
\<close>

definition normalized :: "(real \<times> real) list \<Rightarrow> bool" where
  "normalized rs =
     (sorted_wrt (\<lambda>a b. snd a < fst b) rs \<and> list_all (\<lambda>r. fst r \<le> snd r) rs)"

text \<open>
  A handler has selected audio track 0 on the instance: its result refers to the instance
  after the assignment \<^verbatim>\<open>hlsInstance.audioTrack = 0\<close>.
\<close>

definition audio_forced :: "player \<Rightarrow> js_error + player \<Rightarrow> bool" where
  "audio_forced s r =
     (case (hlsInstance s, r) of
        (Some e, Inr s') \<Rightarrow> hlsInstance s' = Some (hls_set_audioTrack 0 e)
      | _ \<Rightarrow> False)"

text \<open>
  When the specification has the handler of manifest-parsed select track 0: several
  audio tracks, none of them active.
\<close>

definition spec_manifest_forces :: "engine \<Rightarrow> bool" where
  "spec_manifest_forces e =
     (case audioTracks e of
        None \<Rightarrow> False
      | Some ts \<Rightarrow> 1 < length ts \<and> audioTrack e < 0)"

subsection \<open>Sample states and state updates\<close>

definition sample_env :: env where
  "sample_env =
     \<lparr>url_pathname = sample_pathname, Hls_defined = True, Hls_isSupported = True,
      canPlayType_hls = False, HLS_CONFIG = Some window_HLS_CONFIG\<rparr>"

text \<open>A playing surface at position \<open>p\<close>, with duration \<open>d\<close> and buffered ranges \<open>bs\<close>.\<close>

definition sample_player :: "real \<Rightarrow> jsval \<Rightarrow> (real \<times> real) list \<Rightarrow> player" where
  "sample_player p d bs =
     init_player\<lparr>video := init_video\<lparr>paused := False, currentTime := p, duration := d,
                                       buffered := bs\<rparr>\<rparr>"

definition with_position :: "real \<Rightarrow> player \<Rightarrow> player" where
  "with_position t s = s\<lparr>video := (video s)\<lparr>currentTime := t\<rparr>\<rparr>"

definition with_error :: "nat option \<Rightarrow> player \<Rightarrow> player" where
  "with_error c s = s\<lparr>video := (video s)\<lparr>error := c\<rparr>\<rparr>"

definition with_engine :: "engine \<Rightarrow> player \<Rightarrow> player" where
  "with_engine e s = s\<lparr>hlsInstance := Some e\<rparr>"

text \<open>An instance as \<^verbatim>\<open>loadVideo\<close> leaves it, with tracks \<open>ts\<close> and active track \<open>a\<close>.\<close>

definition sample_engine :: "string list \<Rightarrow> int \<Rightarrow> engine" where
  "sample_engine ts a =
     (new_Hls default_config)\<lparr>listeners := [MANIFEST_PARSED, ERROR, AUDIO_TRACK_LOADED],
        audioTracks := Some ts, audioTrack := a\<rparr>"

section \<open>Format resolution\<close>

lemma split_on_nonempty: "split_on c s \<noteq> []"
  by (induction s) (auto split: list.splits)

lemma split_on_no_sep: "c \<notin> set s \<Longrightarrow> split_on c s = [s]"
  by (induction s) auto

lemma split_on_length: "length (split_on c s) = Suc (length (filter (\<lambda>x. x = c) s))"
  by (induction s) (auto split: list.splits simp: split_on_nonempty)

lemma split_on_tl:
  assumes "c \<in> set s"
  shows "tl (split_on c s) \<noteq> []"
proof -
  from assms have "filter (\<lambda>x. x = c) s \<noteq> []"
    by (simp add: filter_empty_conv)
  then have "2 \<le> length (split_on c s)"
    by (simp add: split_on_length Suc_le_eq)
  then show ?thesis
    by (cases "split_on c s") auto
qed

lemma last_split_on: "last (split_on c s) = rev (takeWhile (\<lambda>x. x \<noteq> c) (rev s))"
proof (induction s)
  case Nil
  then show ?case by simp
next
  case (Cons x xs)
  show ?case
  proof (cases "c \<in> set xs")
    case True
    then have tw: "takeWhile (\<lambda>y. y \<noteq> c) (rev xs @ [x]) = takeWhile (\<lambda>y. y \<noteq> c) (rev xs)"
      by (intro takeWhile_append1[of c]) auto
    from True have "tl (split_on c xs) \<noteq> []"
      by (rule split_on_tl)
    then show ?thesis
      using Cons tw by (auto split: list.splits simp: split_on_nonempty)
  next
    case False
    then have "split_on c xs = [xs]"
      by (rule split_on_no_sep)
    moreover from False
    have "takeWhile (\<lambda>y. y \<noteq> c) (rev xs @ [x]) = rev xs @ takeWhile (\<lambda>y. y \<noteq> c) [x]"
      by (intro takeWhile_append2) auto
    ultimately show ?thesis
      by auto
  qed
qed

lemma hd_split_on: "hd (split_on c s) = takeWhile (\<lambda>x. x \<noteq> c) s"
  by (induction s) (auto split: list.splits simp: split_on_nonempty)

lemma ext_chain_eq: "ext_chain x = Inr (Some (path_extension x))"
proof -
  have "pop (split_on CHR ''.'' x) = Some (rev (takeWhile (\<lambda>c. c \<noteq> CHR ''.'') (rev x)))"
    by (simp add: pop_def split_on_nonempty last_split_on)
  moreover have "(case split_on CHR ''?'' y of [] \<Rightarrow> None | e # _ \<Rightarrow> Some e)
      = Some (takeWhile (\<lambda>c. c \<noteq> CHR ''?'') y)" for y
    using hd_split_on[of "CHR ''?''" y] split_on_nonempty[of "CHR ''?''" y]
    by (cases "split_on CHR ''?'' y") auto
  ultimately show ?thesis
    by (simp add: ext_chain_def path_extension_def)
qed

lemma getExt_eq: "getExt pathname url = Inr (Some (path_extension (path_or_url pathname url)))"
  by (cases "pathname url") (simp_all add: getExt_def path_or_url_def ext_chain_eq)

lemma classify_kind:
  "classify pathname url =
     Inr (if path_extension (path_or_url pathname url) = ''m3u8'' \<or> sublist ''.m3u8'' url then HLS
          else if path_extension (path_or_url pathname url) = ''mpd'' \<or> sublist ''.mpd'' url then DASH
          else Progressive)"
  by (simp add: classify_def getExt_eq js_includes_def)

lemma classify_cases:
  obtains k where "classify pathname url = Inr k"
  by (simp add: classify_kind)

lemmas sample_url_defs = path_or_url_def sample_pathname_def path_extension_def
  toLowerCase_def lower_char_def sublist_Cons_right

lemma sample_mp4: "classify sample_pathname ''http://h/a.mp4'' = Inr Progressive"
  by (simp add: classify_kind sample_url_defs)

lemma sample_m3u8: "classify sample_pathname ''http://h/a.m3u8?t=1'' = Inr HLS"
  by (simp add: classify_kind sample_url_defs)



section \<open>Seeking\<close>

lemma sample_player_simps:
  "duration (video (sample_player p d bs)) = d"
  "currentTime (video (sample_player p d bs)) = p"
  "buffered (video (sample_player p d bs)) = bs"
  "paused (video (sample_player p d bs)) = False"
  "with_position t (sample_player p d bs) = sample_player t d bs"
  by (simp_all add: sample_player_def with_position_def)

text \<open>
  C5. For every position \<open>p\<close>, every delta \<open>d\<close> and every known finite duration \<open>D\<close>,
  \<^verbatim>\<open>seek(d)\<close> returns and sets the position to \<open>p + d\<close> clamped into the interval from 0
  to \<open>D\<close>.
\<close>

theorem seek_clamps:
  assumes "duration (video s) = Number D" and "0 \<le> D"
  shows "seek d s = Inr (with_position (max 0 (min D (currentTime (video s) + d))) s)
    \<and> 0 \<le> max 0 (min D (currentTime (video s) + d))
    \<and> max 0 (min D (currentTime (video s) + d)) \<le> D"
  using assms by (cases "D = 0") (simp_all add: seek_def js_or_def with_position_def)

text \<open>
  C5 on the two cases of the specification: 10 seconds back from 3.0 gives 0, 10 seconds
  forward from 115 gives 120, the duration being 120.
\<close>

theorem seek_clamps_witness:
  "duration (video (sample_player 3 (Number 120) [])) = Number 120 \<and> (0::real) \<le> 120
   \<and> seek (- 10) (sample_player 3 (Number 120) []) = Inr (sample_player 0 (Number 120) [])
   \<and> seek 10 (sample_player 115 (Number 120) []) = Inr (sample_player 120 (Number 120) [])"
  using seek_clamps[of "sample_player 3 (Number 120) []" 120 "- 10"]
        seek_clamps[of "sample_player 115 (Number 120) []" 120 10]
  by (simp add: sample_player_simps)

text \<open>
  C10. When the duration is unavailable (NaN, \<^verbatim>\<open>undefined\<close> or zero), \<^verbatim>\<open>seek(d)\<close> returns
  and sets the position to 0, whatever the position and the delta.
\<close>

theorem seek_without_duration:
  assumes "duration (video s) = NaN \<or> duration (video s) = Undefined
           \<or> duration (video s) = Number 0"
  shows "seek d s = Inr (with_position 0 s)"
  using assms by (auto simp add: seek_def js_or_def with_position_def)

text \<open>C10 at position 42, for each of the three unavailable durations.\<close>

theorem seek_without_duration_witness:
  "duration (video (sample_player 42 NaN [])) = NaN
   \<and> seek 10 (sample_player 42 NaN []) = Inr (sample_player 0 NaN [])
   \<and> seek (- 10) (sample_player 42 Undefined []) = Inr (sample_player 0 Undefined [])
   \<and> seek 10 (sample_player 42 (Number 0) []) = Inr (sample_player 0 (Number 0) [])"
  using seek_without_duration[of "sample_player 42 NaN []" 10]
        seek_without_duration[of "sample_player 42 Undefined []" "- 10"]
        seek_without_duration[of "sample_player 42 (Number 0) []" 10]
  by (simp add: sample_player_simps)

section \<open>Buffer ahead\<close>

lemma buffer_scan_None:
  "buffer_scan rs p = None \<longleftrightarrow> (\<forall>r \<in> set rs. \<not> (fst r \<le> p \<and> p \<le> snd r))"
  by (induction rs) auto

lemma buffer_scan_Some:
  "buffer_scan rs p = Some x \<Longrightarrow>
     \<exists>i < length rs. fst (rs ! i) \<le> p \<and> p \<le> snd (rs ! i) \<and> x = snd (rs ! i) - p
        \<and> (\<forall>j < i. \<not> (fst (rs ! j) \<le> p \<and> p \<le> snd (rs ! j)))"
proof (induction rs)
  case Nil
  then show ?case by simp
next
  case (Cons r rs)
  show ?case
  proof (cases "fst r \<le> p \<and> p \<le> snd r")
    case True
    with Cons.prems have "x = snd r - p" by simp
    with True show ?thesis by (intro exI[of _ 0]) simp
  next
    case False
    with Cons.prems have "buffer_scan rs p = Some x" by simp
    from Cons.IH[OF this] obtain i where i: "i < length rs" "fst (rs ! i) \<le> p"
      "p \<le> snd (rs ! i)" "x = snd (rs ! i) - p"
      "\<forall>j < i. \<not> (fst (rs ! j) \<le> p \<and> p \<le> snd (rs ! j))" by blast
    show ?thesis
    proof (intro exI[of _ "Suc i"] conjI allI impI)
      fix j assume "j < Suc i"
      then show "\<not> (fst ((r # rs) ! j) \<le> p \<and> p \<le> snd ((r # rs) ! j))"
        using False i(5) by (cases j) auto
    qed (use i in auto)
  qed
qed

text \<open>
  C6. For every list of buffered intervals and every position \<open>p\<close>, the buffer-ahead
  value is absent exactly when no interval contains \<open>p\<close>; otherwise it is the end of an
  interval that contains \<open>p\<close> (the first one in the list) minus \<open>p\<close>.
\<close>

theorem getBufferAhead_spec:
  "(getBufferAhead v = None \<longleftrightarrow>
      (\<forall>r \<in> set (buffered v). \<not> (fst r \<le> currentTime v \<and> currentTime v \<le> snd r)))
   \<and> (\<forall>x. getBufferAhead v = Some x \<longrightarrow>
        (\<exists>i < length (buffered v).
           fst (buffered v ! i) \<le> currentTime v \<and> currentTime v \<le> snd (buffered v ! i)
           \<and> x = snd (buffered v ! i) - currentTime v
           \<and> (\<forall>j < i. \<not> (fst (buffered v ! j) \<le> currentTime v
                          \<and> currentTime v \<le> snd (buffered v ! j)))))"
proof (intro conjI allI impI)
  show "getBufferAhead v = None \<longleftrightarrow>
      (\<forall>r \<in> set (buffered v). \<not> (fst r \<le> currentTime v \<and> currentTime v \<le> snd r))"
    by (cases "buffered v")
       (simp_all add: getBufferAhead_def buffer_scan_None del: buffer_scan.simps)
next
  fix x assume "getBufferAhead v = Some x"
  then have "buffer_scan (buffered v) (currentTime v) = Some x"
    by (simp add: getBufferAhead_def split: if_splits)
  then show "\<exists>i < length (buffered v).
           fst (buffered v ! i) \<le> currentTime v \<and> currentTime v \<le> snd (buffered v ! i)
           \<and> x = snd (buffered v ! i) - currentTime v
           \<and> (\<forall>j < i. \<not> (fst (buffered v ! j) \<le> currentTime v
                          \<and> currentTime v \<le> snd (buffered v ! j)))"
    by (rule buffer_scan_Some)
qed

text \<open>
  C6 on the case of the specification: position 12.0 in the interval from 5.0 to 20.0
  gives 8.0; position 30 outside it gives no value.
\<close>

theorem getBufferAhead_spec_witness:
  "getBufferAhead (video (sample_player 12 (Number 120) [(5, 20)])) = Some 8
   \<and> getBufferAhead (video (sample_player 30 (Number 120) [(5, 20)])) = None
   \<and> getBufferAhead (video (sample_player 12 (Number 120) [(0, 3), (5, 20), (25, 40)])) = Some 8"
  using getBufferAhead_spec[of "video (sample_player 12 (Number 120) [(5, 20)])"]
  by (simp add: sample_player_simps getBufferAhead_def)

section \<open>Errors of the playback surface\<close>

text \<open>
  C7 as stated fails: for an error code outside the table the message is the text
  'Unknown error.', not the 'Could not load video.' shown when there is no error object.
\<close>

theorem onVideoError_unknown_code:
  "errorMsg (onVideoError (with_error (Some 5) init_player)) = ''Unknown error.''
   \<and> errorMsg (onVideoError (with_error (Some 5) init_player)) \<noteq> ''Could not load video.''
   \<and> errorMsg (onVideoError (with_error None init_player)) = ''Could not load video.''"
  by (simp add: onVideoError_def showError_def hideSpinner_def with_error_def msgs_def
      str_or_def init_player_def)

text \<open>
  C7, amended. For every error event of the playback surface the spinner is hidden, the
  error overlay is shown, and the message is fixed by the error: one text for each of the
  codes 1 (aborted), 2 (network), 3 (decode) and 4 (source not supported), 'Unknown
  error.' for any other code, 'Could not load video.' when the element has no error
  object.
\<close>

theorem onVideoError_messages:
  "onVideoError s =
     s\<lparr>spinner_active := False,
       errorMsg :=
         (case error (video s) of
            None \<Rightarrow> ''Could not load video.''
          | Some code \<Rightarrow>
              if code = 1 then ''Playback aborted.''
              else if code = 2 then ''Network error. Check the URL and your connection.''
              else if code = 3 then ''Decoding error. Format may be unsupported.''
              else if code = 4 then ''Source not supported or URL is invalid.''
              else ''Unknown error.''),
       errorOverlay_active := True\<rparr>"
  by (simp add: onVideoError_def showError_def hideSpinner_def msgs_def str_or_def
      split: option.splits)

text \<open>C7, amended, on a decode error and on an event without an error object.\<close>

theorem onVideoError_messages_witness:
  "errorMsg (onVideoError (with_error (Some 3) init_player))
     = ''Decoding error. Format may be unsupported.''
   \<and> errorOverlay_active (onVideoError (with_error (Some 3) init_player))
   \<and> errorMsg (onVideoError (with_error None (showSpinner init_player)))
     = ''Could not load video.''
   \<and> \<not> spinner_active (onVideoError (with_error None (showSpinner init_player)))"
  using onVideoError_messages[of "with_error (Some 3) init_player"]
        onVideoError_messages[of "with_error None (showSpinner init_player)"]
  by (simp add: with_error_def showSpinner_def)

section \<open>The buffered-range indicator\<close>

lemma cof_upward:
  assumes "snd a < fst b" and "fst a \<le> snd a" and "contains_or_follows p a"
  shows "contains_or_follows p b"
  using assms by (auto simp add: contains_or_follows_def)

lemma normalized_last:
  assumes "normalized rs" and "r \<in> set rs"
  shows "r = last rs \<or> snd r < fst (last rs)"
  using assms
proof (induction rs)
  case Nil
  then show ?case by simp
next
  case (Cons x xs)
  show ?case
  proof (cases "xs = []")
    case True
    with Cons.prems show ?thesis by simp
  next
    case False
    then have l: "last (x # xs) = last xs" "last xs \<in> set xs" by simp_all
    from Cons.prems(1) have n: "normalized xs" and lt: "\<forall>y \<in> set xs. snd x < fst y"
      by (simp_all add: normalized_def)
    show ?thesis
    proof (cases "r = x")
      case True
      with lt l show ?thesis by simp
    next
      case False
      with Cons.prems(2) have "r \<in> set xs" by simp
      from Cons.IH[OF n this] l show ?thesis by simp
    qed
  qed
qed

lemma spec_buffered_end_last:
  assumes n: "normalized rs" and sp: "spec_buffered_end rs p = Some x"
  shows "x = snd (last rs)"
proof -
  from sp obtain r rest where F: "filter (contains_or_follows p) rs = r # rest"
    and x: "x = fold max (map snd rest) (snd r)"
    by (auto simp add: spec_buffered_end_def split: list.splits)
  have "fold max (map snd rest) (snd r) = Max (set (snd r # map snd rest))"
    by (rule Max.set_eq_fold[symmetric])
  also have "set (snd r # map snd rest) = snd ` set (r # rest)"
    by simp
  finally have xm: "x = Max (snd ` set (r # rest))"
    unfolding x .
  have "r \<in> set (filter (contains_or_follows p) rs)"
    unfolding F by simp
  then have r: "r \<in> set rs" "contains_or_follows p r"
    by simp_all
  then have ne: "rs \<noteq> []" by auto
  from n have le: "\<forall>y \<in> set rs. fst y \<le> snd y"
    by (simp add: normalized_def list_all_iff)
  have cl: "contains_or_follows p (last rs)"
    using normalized_last[OF n r(1)] r(2) le r(1) cof_upward[of r "last rs" p]
    by auto
  have inF: "last rs \<in> set (r # rest)"
    unfolding F[symmetric] using ne cl by simp
  have ub: "snd y \<le> snd (last rs)" if "y \<in> set (r # rest)" for y
  proof -
    from that have "y \<in> set rs"
      unfolding F[symmetric] by simp
    from normalized_last[OF n this] le ne last_in_set[OF ne] \<open>y \<in> set rs\<close>
    show ?thesis by (metis less_eq_real_def order_trans)
  qed
  have "Max (snd ` set (r # rest)) = snd (last rs)"
  proof (rule Max_eqI)
    show "finite (snd ` set (r # rest))" by blast
    show "y \<le> snd (last rs)" if "y \<in> snd ` set (r # rest)" for y
      using that ub by blast
    show "snd (last rs) \<in> snd ` set (r # rest)"
      using inF by blast
  qed
  with xm show ?thesis by simp
qed

text \<open>
  C8 as stated fails: with the range from 0 to 10 buffered, the position at 50 and a
  duration of 100, no buffered interval contains or follows the position, and the
  indicator is set to 10 percent all the same, from the end of the last range.
\<close>

theorem onProgress_ignores_position:
  "bufferBar_width (onProgress (sample_player 50 (Number 100) [(0, 10)])) = Some 10
   \<and> spec_buffered_end (buffered (video (sample_player 50 (Number 100) [(0, 10)])))
        (currentTime (video (sample_player 50 (Number 100) [(0, 10)]))) = None"
  by (simp add: onProgress_def sample_player_def init_video_def init_player_def
      spec_buffered_end_def contains_or_follows_def)

text \<open>
  C8, amended. On every buffer-progress event with a known finite duration, not zero,
  and a non-empty list of buffered intervals, the indicator is the end of the last
  buffered interval divided by the duration, in percent, whatever the position. For
  ranges as the browser reports them (in order and apart) this is the end of the furthest
  interval that contains or follows the position, whenever there is one.
\<close>

theorem onProgress_last_range:
  assumes "duration (video s) = Number D" and "D \<noteq> 0" and "buffered (video s) \<noteq> []"
  shows "onProgress s = s\<lparr>bufferBar_width := Some (snd (last (buffered (video s))) / D * 100)\<rparr>
    \<and> (\<forall>x. normalized (buffered (video s))
            \<and> spec_buffered_end (buffered (video s)) (currentTime (video s)) = Some x
          \<longrightarrow> x = snd (last (buffered (video s))))"
  using assms spec_buffered_end_last[of "buffered (video s)" "currentTime (video s)"]
  by (simp add: onProgress_def last_conv_nth)

text \<open>
  C8, amended, with the ranges from 0 to 3 and from 5 to 30 and a duration of 120: 25
  percent at position 12 inside the last range and at position 50 behind it.
\<close>

theorem onProgress_last_range_witness:
  "duration (video (sample_player 12 (Number 120) [(0, 3), (5, 30)])) = Number 120
   \<and> buffered (video (sample_player 12 (Number 120) [(0, 3), (5, 30)])) \<noteq> []
   \<and> bufferBar_width (onProgress (sample_player 12 (Number 120) [(0, 3), (5, 30)])) = Some 25
   \<and> spec_buffered_end [(0, 3), (5, 30)] 12 = Some 30
   \<and> bufferBar_width (onProgress (sample_player 50 (Number 120) [(0, 3), (5, 30)])) = Some 25"
  using onProgress_last_range[of "sample_player 12 (Number 120) [(0, 3), (5, 30)]" 120]
    onProgress_last_range[of "sample_player 50 (Number 120) [(0, 3), (5, 30)]" 120]
  by (simp add: sample_player_simps spec_buffered_end_def contains_or_follows_def)

section \<open>The life cycle of the HLS.js instance\<close>

lemmas ui_defs = showSpinner_def hideSpinner_def showError_def hideError_def setPlayIcon_def
  video_call_def set_src_def set_muted_def set_volume_def

lemmas hls_defs = on_hlsInstance_def assign_hlsInstance_def hls_on_def hls_call_def
  hls_set_audioTrack_def hls_destroy_def new_Hls_def

lemma engines_ok_destroyHls:
  "engines_ok s \<Longrightarrow> engines_ok (destroyHls s) \<and> hlsInstance (destroyHls s) = None"
  by (auto simp add: engines_ok_def destroyHls_def ui_defs hls_defs split: option.splits)

lemma engines_ok_loadVideo:
  assumes "engines_ok s"
  shows "engines_ok (fst (loadVideo e url title s))"
proof -
  obtain k where k: "classify (url_pathname e) url = Inr k"
    by (rule classify_cases)
  have d: "engines_ok (destroyHls s)" "hlsInstance (destroyHls s) = None"
    using engines_ok_destroyHls[OF assms] by simp_all
  then show ?thesis
    by (cases k)
      (auto simp add: loadVideo_def k Let_def loadHls_def engines_ok_def ui_defs hls_defs
         split: option.splits)
qed

lemma engines_ok_handler:
  "engines_ok s \<Longrightarrow> engines_ok (caught (handler hev d s) s)"
  by (cases hev; cases "error_type d")
     (auto simp add: caught_def onManifestParsed_def onHlsError_def onAudioTrackLoaded_def
       engines_ok_def ui_defs hls_defs split: option.splits)

lemma engines_ok_dispatch:
  "engines_ok s \<Longrightarrow> engines_ok (dispatch ls hev d s)"
  by (induction ls arbitrary: s) (auto simp add: engines_ok_handler)

lemma engines_ok_onVideoEvent: "engines_ok s \<Longrightarrow> engines_ok (onVideoEvent vev s)"
  by (cases vev)
    (auto simp add: engines_ok_def ui_defs scheduleUnmute_def onVideoError_def onProgress_def
      Let_def split: jsval.splits)

lemma run_callback_engines:
  "hlsInstance (run_callback cb s) = hlsInstance s" "dropped (run_callback cb s) = dropped s"
  by (cases cb; simp add: unmuteCallback_def set_muted_def Let_def)+

lemma engines_ok_step: "engines_ok s \<Longrightarrow> engines_ok (step e ev s)"
proof (cases ev)
  case (EvLoad url title)
  assume "engines_ok s"
  then show ?thesis by (simp add: step_def EvLoad engines_ok_loadVideo)
next
  case (EvEngine r hev d)
  assume "engines_ok s"
  then show ?thesis by (simp add: step_def EvEngine engines_ok_dispatch split: option.splits)
next
  case (EvTracks ts a)
  assume "engines_ok s"
  then show ?thesis
    by (auto simp add: step_def EvTracks engines_ok_def hls_defs split: option.splits)
next
  case (EvVideo vev)
  assume "engines_ok s"
  then show ?thesis by (simp add: step_def EvVideo engines_ok_onVideoEvent)
next
  case (EvSurface p ct du bs er)
  assume "engines_ok s"
  then show ?thesis by (simp add: step_def EvSurface engines_ok_def)
next
  case (EvSeek secs)
  assume "engines_ok s"
  then show ?thesis
    by (auto simp add: step_def EvSeek engines_ok_def caught_def seek_def
        split: jsval.splits sum.splits)
next
  case (EvTimer k)
  assume "engines_ok s"
  then show ?thesis
    by (simp add: step_def EvTimer engines_ok_def timer_expires_def run_callback_engines)
qed

lemma engines_ok_run: "engines_ok s \<Longrightarrow> engines_ok (run e evs s)"
  by (induction evs arbitrary: s) (auto simp add: engines_ok_step)

lemma engines_ok_init: "engines_ok init_player"
  by (simp add: engines_ok_def init_player_def)

lemma live_engines_ok:
  "engines_ok s \<Longrightarrow> live_engines s = (case hlsInstance s of None \<Rightarrow> [] | Some e \<Rightarrow> [e])"
  by (cases "hlsInstance s")
     (auto simp add: engines_ok_def live_engines_def all_engines_def list_all_iff
        filter_empty_conv)

lemma dangling_ok: "engines_ok s \<Longrightarrow> dangling s = []"
  by (auto simp add: engines_ok_def dangling_def list_all_iff)

lemma stale_event_ignored:
  assumes "engines_ok s"
  shows "step e (EvEngine (Dropped k) hev d) s = s"
proof (cases "k < length (dropped s)")
  case True
  with assms have "listeners (dropped s ! k) = []"
    by (simp add: engines_ok_def list_all_length)
  with True show ?thesis
    by (simp add: step_def engine_of_def)
next
  case False
  then show ?thesis
    by (simp add: step_def engine_of_def)
qed

lemma loadVideo_engine_path:
  assumes "hlsInstance (destroyHls s) = None"
  shows "(hlsInstance (fst (loadVideo e url title s)) \<noteq> None) = engine_path e url"
proof -
  obtain k where k: "classify (url_pathname e) url = Inr k"
    by (rule classify_cases)
  show ?thesis
    using assms
    by (cases k)
      (auto simp add: loadVideo_def k Let_def loadHls_def engine_path_def ui_defs hls_defs
         split: option.splits)
qed

text \<open>
  C3 as stated fails: two loads of a progressive file in succession leave no live
  instance of the engine, not one.
\<close>

theorem two_loads_no_engine:
  "length (live_engines (run sample_env
      [EvLoad ''http://h/a.mp4'' None, EvLoad ''http://h/a.mp4'' None] init_player)) = 0"
  by (simp add: step_def loadVideo_def sample_env_def sample_mp4 Let_def destroyHls_def
      init_player_def ui_defs live_engines_def all_engines_def)

text \<open>
  C3, amended. In every state an execution reaches, at most one instance of the engine
  is live, no listener is left on a dropped instance, and an event of a dropped instance
  changes nothing. A load from such a state first disposes the instance there is (after
  \<^verbatim>\<open>_destroyHls\<close> no instance is live) and then leaves exactly one live instance when it
  takes the engine path (an HLS url, \<^verbatim>\<open>Hls\<close> defined and supported) and none otherwise, with
  no listener on a dropped instance; so it is after two loads in succession.
\<close>

theorem one_live_engine:
  "length (live_engines (run e evs init_player)) \<le> 1
   \<and> dangling (run e evs init_player) = []
   \<and> step e (EvEngine (Dropped k) hev d) (run e evs init_player) = run e evs init_player
   \<and> live_engines (destroyHls (run e evs init_player)) = []
   \<and> length (live_engines (fst (loadVideo e url title (run e evs init_player))))
       = (if engine_path e url then 1 else 0)
   \<and> dangling (fst (loadVideo e url title (run e evs init_player))) = []"
proof -
  define s where "s = run e evs init_player"
  have ok: "engines_ok s"
    unfolding s_def by (rule engines_ok_run[OF engines_ok_init])
  have dh: "engines_ok (destroyHls s)" "hlsInstance (destroyHls s) = None"
    using engines_ok_destroyHls[OF ok] by simp_all
  have ok': "engines_ok (fst (loadVideo e url title s))"
    by (rule engines_ok_loadVideo[OF ok])
  have "length (live_engines s) \<le> 1"
    by (simp add: live_engines_ok[OF ok] split: option.splits)
  moreover have "dangling s = []"
    by (rule dangling_ok[OF ok])
  moreover have "step e (EvEngine (Dropped k) hev d) s = s"
    by (rule stale_event_ignored[OF ok])
  moreover have "live_engines (destroyHls s) = []"
    by (simp add: live_engines_ok[OF dh(1)] dh(2))
  moreover have "length (live_engines (fst (loadVideo e url title s)))
       = (if engine_path e url then 1 else 0)"
    using loadVideo_engine_path[OF dh(2), of e url title]
    by (auto simp add: live_engines_ok[OF ok'] split: option.splits)
  moreover have "dangling (fst (loadVideo e url title s)) = []"
    by (rule dangling_ok[OF ok'])
  ultimately show ?thesis
    unfolding s_def by blast
qed

text \<open>
  C3, amended, on two loads of an HLS url in succession where the engine is present:
  one live instance, and the instance of the first load is dropped, destroyed and
  without listeners.
\<close>

theorem one_live_engine_witness:
  "engine_path sample_env ''http://h/a.m3u8?t=1''
   \<and> length (live_engines (fst (loadVideo sample_env ''http://h/a.m3u8?t=1'' None
        (run sample_env [EvLoad ''http://h/a.m3u8?t=1'' None] init_player)))) = 1
   \<and> map destroyed (dropped (fst (loadVideo sample_env ''http://h/a.m3u8?t=1'' None
        (run sample_env [EvLoad ''http://h/a.m3u8?t=1'' None] init_player)))) = [True]
   \<and> dangling (fst (loadVideo sample_env ''http://h/a.m3u8?t=1'' None
        (run sample_env [EvLoad ''http://h/a.m3u8?t=1'' None] init_player))) = []"
proof -
  have p: "engine_path sample_env ''http://h/a.m3u8?t=1''"
    by (simp add: engine_path_def sample_env_def sample_m3u8)
  have "map destroyed (dropped (fst (loadVideo sample_env ''http://h/a.m3u8?t=1'' None
        (run sample_env [EvLoad ''http://h/a.m3u8?t=1'' None] init_player)))) = [True]"
    by (simp add: step_def loadVideo_def sample_env_def sample_m3u8 Let_def destroyHls_def
        loadHls_def init_player_def ui_defs hls_defs)
  with p one_live_engine[where e = sample_env and url = "''http://h/a.m3u8?t=1''"
      and evs = "[EvLoad ''http://h/a.m3u8?t=1'' None]" and title = None]
  show ?thesis by simp
qed

section \<open>The recovery policy\<close>

lemma onHlsError_policy:
  assumes "hlsInstance s = Some eng"
  shows "onHlsError d s =
     Inr (if \<not> fatal d then s
          else if error_type d = NETWORK_ERROR then
            s\<lparr>hlsInstance := Some (eng\<lparr>calls := calls eng @ [StartLoad]\<rparr>)\<rparr>
          else if error_type d = MEDIA_ERROR then
            s\<lparr>hlsInstance := Some (eng\<lparr>calls := calls eng @ [RecoverMediaError]\<rparr>)\<rparr>
          else
            s\<lparr>spinner_active := False,
              errorMsg := ''HLS fatal error: '' @
                 (case details d of
                    None \<Rightarrow> ''unknown''
                  | Some x \<Rightarrow> if x = [] then ''unknown'' else x),
              errorOverlay_active := True\<rparr>)"
  using assms
  by (cases "error_type d")
     (simp_all add: onHlsError_def on_hlsInstance_def hls_call_def showError_def hideSpinner_def
       str_or_def split: option.splits)

lemma error_event_once:
  assumes "engines_ok s" and "hlsInstance s = Some eng"
  shows "step e (EvEngine Current ERROR d) s = caught (onHlsError d s) s"
  using assms by (simp add: step_def engine_of_def engines_ok_def)

text \<open>
  C2. The handler of the engine's error events, when the module refers to an instance:
  a fatal network error makes exactly one call of \<^verbatim>\<open>startLoad\<close> on it and nothing else; a
  fatal media error exactly one call of \<^verbatim>\<open>recoverMediaError\<close> and nothing else; any other
  fatal error shows the error overlay with the message 'HLS fatal error: ' followed by
  the detail string of the engine if it has one, by 'unknown' otherwise, and calls
  nothing on the engine; an error that is not fatal changes nothing. In every state an
  execution reaches, an error event of the current instance runs this handler once.
\<close>

theorem recovery_policy:
  "(hlsInstance s = Some eng \<longrightarrow>
      onHlsError d s =
        Inr (if \<not> fatal d then s
             else if error_type d = NETWORK_ERROR then
               s\<lparr>hlsInstance := Some (eng\<lparr>calls := calls eng @ [StartLoad]\<rparr>)\<rparr>
             else if error_type d = MEDIA_ERROR then
               s\<lparr>hlsInstance := Some (eng\<lparr>calls := calls eng @ [RecoverMediaError]\<rparr>)\<rparr>
             else
               s\<lparr>spinner_active := False,
                 errorMsg := ''HLS fatal error: '' @
                    (case details d of
                       None \<Rightarrow> ''unknown''
                     | Some x \<Rightarrow> if x = [] then ''unknown'' else x),
                 errorOverlay_active := True\<rparr>))
   \<and> (hlsInstance (run e evs init_player) = Some eng' \<longrightarrow>
        step e (EvEngine Current ERROR d) (run e evs init_player)
          = caught (onHlsError d (run e evs init_player)) (run e evs init_player))"
proof -
  have "engines_ok (run e evs init_player)"
    by (rule engines_ok_run[OF engines_ok_init])
  then have "hlsInstance (run e evs init_player) = Some eng' \<longrightarrow>
        step e (EvEngine Current ERROR d) (run e evs init_player)
          = caught (onHlsError d (run e evs init_player)) (run e evs init_player)"
    by (simp add: error_event_once)
  with onHlsError_policy[of s eng d] show ?thesis
    by blast
qed

text \<open>
  C2 on an instance with an empty log: the log after a fatal network error, after a fatal
  media error, after an error that is not fatal, and the message after a fatal error of
  another kind with and without a detail string.
\<close>

theorem recovery_policy_witness:
  "map_option calls (hlsInstance (caught (onHlsError
       \<lparr>fatal = True, error_type = NETWORK_ERROR, details = Some ''manifestLoadError''\<rparr>
       (with_engine (sample_engine [] (- 1)) init_player)) init_player)) = Some [StartLoad]
   \<and> map_option calls (hlsInstance (caught (onHlsError
       \<lparr>fatal = True, error_type = MEDIA_ERROR, details = Some ''bufferStalledError''\<rparr>
       (with_engine (sample_engine [] (- 1)) init_player)) init_player))
      = Some [RecoverMediaError]
   \<and> onHlsError \<lparr>fatal = False, error_type = NETWORK_ERROR, details = None\<rparr>
        (with_engine (sample_engine [] (- 1)) init_player)
      = Inr (with_engine (sample_engine [] (- 1)) init_player)
   \<and> errorMsg (caught (onHlsError
       \<lparr>fatal = True, error_type = MUX_ERROR, details = Some ''remuxAllocError''\<rparr>
       (with_engine (sample_engine [] (- 1)) init_player)) init_player)
      = ''HLS fatal error: remuxAllocError''
   \<and> errorMsg (caught (onHlsError
       \<lparr>fatal = True, error_type = OTHER_ERROR, details = None\<rparr>
       (with_engine (sample_engine [] (- 1)) init_player)) init_player)
      = ''HLS fatal error: unknown''"
  using
    recovery_policy[where s = "with_engine (sample_engine [] (- 1)) init_player"
      and eng = "sample_engine [] (- 1)" and e = sample_env and evs = "[]"
      and d = "\<lparr>fatal = True, error_type = NETWORK_ERROR, details = Some ''manifestLoadError''\<rparr>"]
    recovery_policy[where s = "with_engine (sample_engine [] (- 1)) init_player"
      and eng = "sample_engine [] (- 1)" and e = sample_env and evs = "[]"
      and d = "\<lparr>fatal = True, error_type = MEDIA_ERROR, details = Some ''bufferStalledError''\<rparr>"]
    recovery_policy[where s = "with_engine (sample_engine [] (- 1)) init_player"
      and eng = "sample_engine [] (- 1)" and e = sample_env and evs = "[]"
      and d = "\<lparr>fatal = False, error_type = NETWORK_ERROR, details = None\<rparr>"]
    recovery_policy[where s = "with_engine (sample_engine [] (- 1)) init_player"
      and eng = "sample_engine [] (- 1)" and e = sample_env and evs = "[]"
      and d = "\<lparr>fatal = True, error_type = MUX_ERROR, details = Some ''remuxAllocError''\<rparr>"]
    recovery_policy[where s = "with_engine (sample_engine [] (- 1)) init_player"
      and eng = "sample_engine [] (- 1)" and e = sample_env and evs = "[]"
      and d = "\<lparr>fatal = True, error_type = OTHER_ERROR, details = None\<rparr>"]
  by (simp add: with_engine_def sample_engine_def new_Hls_def caught_def init_player_def)

section \<open>Audio track selection\<close>

lemma hls_set_audioTrack_neq: "hls_set_audioTrack n e \<noteq> e"
proof
  assume "hls_set_audioTrack n e = e"
  then have "calls (hls_set_audioTrack n e) = calls e"
    by simp
  then show False
    by (simp add: hls_set_audioTrack_def)
qed

text \<open>
  C4 as stated fails: on manifest-parsed the handler selects track 0 with two tracks of
  which track 1 is active, and with a single track of which none is active; the
  specification selects it in neither case.
\<close>

theorem manifest_forces_active_track:
  "audio_forced (with_engine (sample_engine [''en'', ''fr''] 1) init_player)
      (onManifestParsed (with_engine (sample_engine [''en'', ''fr''] 1) init_player))
   \<and> \<not> spec_manifest_forces (sample_engine [''en'', ''fr''] 1)
   \<and> audio_forced (with_engine (sample_engine [''en''] (- 1)) init_player)
      (onManifestParsed (with_engine (sample_engine [''en''] (- 1)) init_player))
   \<and> \<not> spec_manifest_forces (sample_engine [''en''] (- 1))"
  by (simp add: audio_forced_def onManifestParsed_def with_engine_def sample_engine_def
      on_hlsInstance_def video_call_def set_volume_def set_muted_def spec_manifest_forces_def)

text \<open>
  C4, amended. When the module refers to an instance, the handler of manifest-parsed
  returns, and selects audio track 0 if and only if the track list is present and not
  empty, whether a track is active or not; and, the track list being present, the handler
  of audio-track-loaded returns, and selects audio track 0 if and only if no track is
  active (the index is negative) and the track list is not empty.
\<close>

theorem audio_track_selection:
  assumes "hlsInstance s = Some e"
  shows "(\<exists>s'. onManifestParsed s = Inr s')
    \<and> audio_forced s (onManifestParsed s)
        = (case audioTracks e of None \<Rightarrow> False | Some ts \<Rightarrow> ts \<noteq> [])
    \<and> (\<forall>ts. audioTracks e = Some ts \<longrightarrow>
          (\<exists>s'. onAudioTrackLoaded s = Inr s') \<and>
          audio_forced s (onAudioTrackLoaded s) = (audioTrack e < 0 \<and> ts \<noteq> []))"
  using assms hls_set_audioTrack_neq[of 0 e, symmetric]
  by (auto simp add: audio_forced_def onManifestParsed_def onAudioTrackLoaded_def
       on_hlsInstance_def video_call_def set_volume_def set_muted_def split: option.splits)

text \<open>
  C4, amended, on the scenario of the specification (two audio tracks, none active: both
  handlers select track 0), and on two tracks of which track 1 is active (the handler of
  audio-track-loaded leaves the selection alone).
\<close>

theorem audio_track_selection_witness:
  "hlsInstance (with_engine (sample_engine [''en'', ''fr''] (- 1)) init_player)
      = Some (sample_engine [''en'', ''fr''] (- 1))
   \<and> audio_forced (with_engine (sample_engine [''en'', ''fr''] (- 1)) init_player)
      (onManifestParsed (with_engine (sample_engine [''en'', ''fr''] (- 1)) init_player))
   \<and> audio_forced (with_engine (sample_engine [''en'', ''fr''] (- 1)) init_player)
      (onAudioTrackLoaded (with_engine (sample_engine [''en'', ''fr''] (- 1)) init_player))
   \<and> \<not> audio_forced (with_engine (sample_engine [''en'', ''fr''] 1) init_player)
      (onAudioTrackLoaded (with_engine (sample_engine [''en'', ''fr''] 1) init_player))"
  using
    audio_track_selection[of "with_engine (sample_engine [''en'', ''fr''] (- 1)) init_player"
      "sample_engine [''en'', ''fr''] (- 1)"]
    audio_track_selection[of "with_engine (sample_engine [''en'', ''fr''] 1) init_player"
      "sample_engine [''en'', ''fr''] 1"]
  by (simp add: with_engine_def sample_engine_def)

section \<open>The unmute timer\<close>















end
